theory Spec2Isabelle
  imports Complex_Main
begin

section \<open>Numeric model\<close>

text \<open>
  The shader sources compute with single-precision \<^verbatim>\<open>float\<close> and 32-bit \<^verbatim>\<open>int\<close>.
  \<^item> Where a function evaluates the very expression a property is about, a \<^verbatim>\<open>float\<close> is
    modelled as a \<^typ>\<open>real\<close> and the formula is read in exact arithmetic: rounding is
    outside the model, and \<^verbatim>\<open>M_PI_F\<close> is \<^term>\<open>pi\<close>.
  \<^item> \<open>free_particle\<close> is evaluated in binary32 (section ``Binary32 arithmetic''):
    what it returns at \<open>t = 0\<close> depends on underflow, overflow and NaN.
  \<^item> An \<^verbatim>\<open>int\<close> is modelled as an \<^typ>\<open>int\<close> in the range \<open>INT_MIN .. INT_MAX\<close>.
    Where an \<^verbatim>\<open>int\<close> operation can leave that range the two's complement
    wrap-around \<open>int_wrap\<close> is written out. (The language standard leaves that case
    undefined; wrapping is what the hardware does.)
\<close>

definition INT_MAX :: int where
  "INT_MAX = 2147483647"

definition INT_MIN :: int where
  "INT_MIN = - 2147483648"

definition is_int :: "int \<Rightarrow> bool" where
  "is_int k = (INT_MIN \<le> k \<and> k \<le> INT_MAX)"

definition int_wrap :: "int \<Rightarrow> int" where
  "int_wrap k = (k + 2147483648) mod 4294967296 - 2147483648"

text \<open>\<^verbatim>\<open>i++\<close> on an \<^verbatim>\<open>int\<close>.\<close>

definition int_incr :: "int \<Rightarrow> int" where
  "int_incr i = int_wrap (i + 1)"

text \<open>\<^verbatim>\<open>#define M_PI_F 3.14159265358979323846f\<close>\<close>

definition M_PI_F :: real where
  "M_PI_F = pi"

text \<open>
  The library function \<^verbatim>\<open>pow(x, y)\<close>: repeated multiplication or division when \<open>y\<close>
  is a whole number (so a negative base is allowed there), \<open>exp (y * ln x)\<close> otherwise.
\<close>

definition pow :: "real \<Rightarrow> real \<Rightarrow> real" where
  "pow x y = (if y = real_of_int \<lfloor>y\<rfloor> then x powi \<lfloor>y\<rfloor> else x powr y)"

text \<open>The library function \<^verbatim>\<open>atan2(y, x)\<close>, with \<^verbatim>\<open>atan2(0, 0) = 0\<close>.\<close>

definition atan2 :: "real \<Rightarrow> real \<Rightarrow> real" where
  "atan2 y x =
     (if 0 < x then arctan (y / x)
      else if x < 0 \<and> 0 \<le> y then arctan (y / x) + pi
      else if x < 0 then arctan (y / x) - pi
      else if 0 < y then pi / 2
      else if y < 0 then - (pi / 2)
      else 0)"

section \<open>Binary32 arithmetic\<close>

text \<open>
  The shading language has no \<^verbatim>\<open>double\<close>, so every variable, literal and operation of
  \<open>free_particle\<close> is a binary32 \<^verbatim>\<open>float\<close>. A binary32 value is a finite real on the
  binary32 grid, an infinity or NaN.
  \<^item> An arithmetic operation returns the exact result rounded to nearest, ties to even
    (\<open>round32\<close>): 24 significant bits, exponents from \<open>-126\<close> to \<open>127\<close>, gradual
    underflow in steps of \<open>2 powr (- 149)\<close>, overflow to an infinity.
  \<^item> The library functions \<^verbatim>\<open>sqrt\<close>, \<^verbatim>\<open>exp\<close>, \<^verbatim>\<open>cos\<close>, \<^verbatim>\<open>sin\<close>, \<^verbatim>\<open>pow\<close> and \<^verbatim>\<open>atan2\<close> return the
    rounded exact value, with the special cases of the C standard for zeros, infinities
    and NaN. (An implementation may be a few units in the last place away from the
    rounded value; the special cases are exact.)
  \<^item> The sign of a zero is not kept: a zero is \<open>+0\<close>. In \<open>free_particle\<close> every divisor is
    \<open>mass\<close> or a product that is non-negative for positive \<open>mass\<close> and \<open>sigma\<close>, so for
    such inputs the sign of a zero decides no result.
\<close>

datatype binary32 = Fin real | PInf | NInf | NaN

text \<open>The nearest integer, ties to even.\<close>

definition round_even :: "real \<Rightarrow> int" where
  "round_even q =
     (let f = \<lfloor>q\<rfloor>; d = q - real_of_int f
      in if d < 1 / 2 then f
         else if 1 / 2 < d then f + 1
         else if even f then f
         else f + 1)"

text \<open>The binade of \<open>r\<close>, the smallest normal binade for a subnormal \<open>r\<close>.\<close>

definition expo :: "real \<Rightarrow> int" where
  "expo r = (if \<bar>r\<bar> < 2 powr (- 126) then - 126 else \<lfloor>log 2 \<bar>r\<bar>\<rfloor>)"

text \<open>The spacing of the binary32 grid at \<open>r\<close>.\<close>

definition ulp :: "real \<Rightarrow> real" where
  "ulp r = 2 powr real_of_int (expo r - 23)"

definition round32 :: "real \<Rightarrow> binary32" where
  "round32 r =
     (let q = ulp r * real_of_int (round_even (r / ulp r))
      in if 2 ^ 128 \<le> \<bar>q\<bar> then (if 0 < r then PInf else NInf) else Fin q)"





text \<open>Unary minus, \<^verbatim>\<open>*\<close>, \<^verbatim>\<open>/\<close>, \<^verbatim>\<open>+\<close> and \<^verbatim>\<open>-\<close> on \<^verbatim>\<open>float\<close>.\<close>

fun neg32 :: "binary32 \<Rightarrow> binary32" where
  "neg32 (Fin x) = Fin (- x)"
| "neg32 PInf = NInf"
| "neg32 NInf = PInf"
| "neg32 NaN = NaN"

fun mul32 :: "binary32 \<Rightarrow> binary32 \<Rightarrow> binary32" where
  "mul32 NaN b = NaN"
| "mul32 a NaN = NaN"
| "mul32 (Fin x) (Fin y) = round32 (x * y)"
| "mul32 (Fin x) PInf = (if x = 0 then NaN else if 0 < x then PInf else NInf)"
| "mul32 (Fin x) NInf = (if x = 0 then NaN else if 0 < x then NInf else PInf)"
| "mul32 PInf (Fin y) = (if y = 0 then NaN else if 0 < y then PInf else NInf)"
| "mul32 NInf (Fin y) = (if y = 0 then NaN else if 0 < y then NInf else PInf)"
| "mul32 PInf PInf = PInf"
| "mul32 PInf NInf = NInf"
| "mul32 NInf PInf = NInf"
| "mul32 NInf NInf = PInf"

fun div32 :: "binary32 \<Rightarrow> binary32 \<Rightarrow> binary32" where
  "div32 NaN b = NaN"
| "div32 a NaN = NaN"
| "div32 (Fin x) (Fin y) =
     (if y = 0 then (if x = 0 then NaN else if 0 < x then PInf else NInf)
      else round32 (x / y))"
| "div32 (Fin x) PInf = Fin 0"
| "div32 (Fin x) NInf = Fin 0"
| "div32 PInf (Fin y) = (if 0 \<le> y then PInf else NInf)"
| "div32 NInf (Fin y) = (if 0 \<le> y then NInf else PInf)"
| "div32 PInf PInf = NaN"
| "div32 PInf NInf = NaN"
| "div32 NInf PInf = NaN"
| "div32 NInf NInf = NaN"

fun add32 :: "binary32 \<Rightarrow> binary32 \<Rightarrow> binary32" where
  "add32 NaN b = NaN"
| "add32 a NaN = NaN"
| "add32 (Fin x) (Fin y) = round32 (x + y)"
| "add32 (Fin x) PInf = PInf"
| "add32 (Fin x) NInf = NInf"
| "add32 PInf (Fin y) = PInf"
| "add32 NInf (Fin y) = NInf"
| "add32 PInf PInf = PInf"
| "add32 PInf NInf = NaN"
| "add32 NInf PInf = NaN"
| "add32 NInf NInf = NInf"

definition sub32 :: "binary32 \<Rightarrow> binary32 \<Rightarrow> binary32" where
  "sub32 a b = add32 a (neg32 b)"

text \<open>The library functions on \<^verbatim>\<open>float\<close>.\<close>

fun sqrt32 :: "binary32 \<Rightarrow> binary32" where
  "sqrt32 (Fin x) = (if x < 0 then NaN else round32 (sqrt x))"
| "sqrt32 PInf = PInf"
| "sqrt32 NInf = NaN"
| "sqrt32 NaN = NaN"

fun exp32 :: "binary32 \<Rightarrow> binary32" where
  "exp32 (Fin x) = round32 (exp x)"
| "exp32 PInf = PInf"
| "exp32 NInf = Fin 0"
| "exp32 NaN = NaN"

fun cos32 :: "binary32 \<Rightarrow> binary32" where
  "cos32 (Fin x) = round32 (cos x)"
| "cos32 a = NaN"

fun sin32 :: "binary32 \<Rightarrow> binary32" where
  "sin32 (Fin x) = round32 (sin x)"
| "sin32 a = NaN"

definition odd_integer :: "real \<Rightarrow> bool" where
  "odd_integer y = (y = real_of_int \<lfloor>y\<rfloor> \<and> odd \<lfloor>y\<rfloor>)"

fun pow32 :: "binary32 \<Rightarrow> binary32 \<Rightarrow> binary32" where
  "pow32 a (Fin y) =
     (if y = 0 then Fin 1
      else case a of
        NaN \<Rightarrow> NaN
      | PInf \<Rightarrow> (if 0 < y then PInf else Fin 0)
      | NInf \<Rightarrow> (if y < 0 then Fin 0 else if odd_integer y then NInf else PInf)
      | Fin x \<Rightarrow>
          (if x = 0 then (if 0 < y then Fin 0 else PInf)
           else if x < 0 \<and> y \<noteq> real_of_int \<lfloor>y\<rfloor> then NaN
           else round32 (pow x y)))"
| "pow32 a PInf =
     (case a of
        NaN \<Rightarrow> NaN
      | Fin x \<Rightarrow> (if \<bar>x\<bar> = 1 then Fin 1 else if \<bar>x\<bar> < 1 then Fin 0 else PInf)
      | _ \<Rightarrow> PInf)"
| "pow32 a NInf =
     (case a of
        NaN \<Rightarrow> NaN
      | Fin x \<Rightarrow> (if \<bar>x\<bar> = 1 then Fin 1 else if \<bar>x\<bar> < 1 then PInf else Fin 0)
      | _ \<Rightarrow> Fin 0)"
| "pow32 a NaN = (if a = Fin 1 then Fin 1 else NaN)"

fun atan2_32 :: "binary32 \<Rightarrow> binary32 \<Rightarrow> binary32" where
  "atan2_32 NaN b = NaN"
| "atan2_32 a NaN = NaN"
| "atan2_32 (Fin y) (Fin x) = round32 (atan2 y x)"
| "atan2_32 (Fin y) PInf = Fin 0"
| "atan2_32 (Fin y) NInf = (if 0 \<le> y then round32 pi else round32 (- pi))"
| "atan2_32 PInf (Fin x) = round32 (pi / 2)"
| "atan2_32 NInf (Fin x) = round32 (- pi / 2)"
| "atan2_32 PInf PInf = round32 (pi / 4)"
| "atan2_32 PInf NInf = round32 (3 * pi / 4)"
| "atan2_32 NInf PInf = round32 (- pi / 4)"
| "atan2_32 NInf NInf = round32 (- 3 * pi / 4)"

text \<open>\<^verbatim>\<open>M_PI_F\<close> as the binary32 value it denotes, \<open>13176795 * 2 powr (- 22)\<close>.\<close>

definition M_PI_F32 :: binary32 where
  "M_PI_F32 = Fin (13176795 / 4194304)"

section \<open>Complex arithmetic (ShaderUtils.h, ComplexUtils.h)\<close>

text \<open>
  \<^verbatim>\<open>typedef struct { float real; float imag; } ComplexType;\<close>
  The fields carry a suffix, \<open>real\<close> being the name of a type.
\<close>

record ComplexType =
  real_c :: real
  imag_c :: real

text \<open>The same struct with its two fields as binary32 values, as \<open>free_particle\<close> returns it.\<close>

record ComplexType32 =
  real32 :: binary32
  imag32 :: binary32

definition complex_mul :: "ComplexType \<Rightarrow> ComplexType \<Rightarrow> ComplexType" where
  "complex_mul a b =
     \<lparr>real_c = real_c a * real_c b - imag_c a * imag_c b,
      imag_c = real_c a * imag_c b + imag_c a * real_c b\<rparr>"

definition complex_conj :: "ComplexType \<Rightarrow> ComplexType" where
  "complex_conj z = \<lparr>real_c = real_c z, imag_c = - imag_c z\<rparr>"

definition complex_abs2 :: "ComplexType \<Rightarrow> real" where
  "complex_abs2 z = real_c z * real_c z + imag_c z * imag_c z"

definition complex_phase :: "ComplexType \<Rightarrow> real" where
  "complex_phase z = atan2 (imag_c z) (real_c z)"

definition complex_add :: "ComplexType \<Rightarrow> ComplexType \<Rightarrow> ComplexType" where
  "complex_add a b = \<lparr>real_c = real_c a + real_c b, imag_c = imag_c a + imag_c b\<rparr>"

definition complex_sub :: "ComplexType \<Rightarrow> ComplexType \<Rightarrow> ComplexType" where
  "complex_sub a b = \<lparr>real_c = real_c a - real_c b, imag_c = imag_c a - imag_c b\<rparr>"

definition complex_scale :: "ComplexType \<Rightarrow> real \<Rightarrow> ComplexType" where
  "complex_scale z scale = \<lparr>real_c = real_c z * scale, imag_c = imag_c z * scale\<rparr>"

definition complex_mul_scalar :: "ComplexType \<Rightarrow> real \<Rightarrow> ComplexType" where
  "complex_mul_scalar a s = \<lparr>real_c = real_c a * s, imag_c = imag_c a * s\<rparr>"

definition complex_mul_i :: "ComplexType \<Rightarrow> ComplexType" where
  "complex_mul_i a = \<lparr>real_c = - imag_c a, imag_c = real_c a\<rparr>"

definition complex_dot :: "ComplexType \<Rightarrow> ComplexType \<Rightarrow> real" where
  "complex_dot a b = real_c a * real_c b + imag_c a * imag_c b"

definition complex_exp :: "real \<Rightarrow> ComplexType" where
  "complex_exp phase = \<lparr>real_c = cos phase, imag_c = sin phase\<rparr>"

definition complex_abs :: "ComplexType \<Rightarrow> real" where
  "complex_abs z = sqrt (complex_abs2 z)"

section \<open>Special functions (ShaderUtils.h, ComplexUtils.h)\<close>

subsection \<open>factorial\<close>

text \<open>
  \<^verbatim>\<open>for (int i = 2; i <= n; i++) { result *= i; }\<close>
  The test \<^verbatim>\<open>i <= n\<close> does not keep \<open>i\<close> below \<open>INT_MAX\<close>, so the increment is
  the wrapping one and the loop is a partial function: \<open>None\<close> is a loop that never
  exits.
\<close>

partial_function (option) factorial_loop :: "int \<Rightarrow> int \<Rightarrow> real \<Rightarrow> real option" where
  "factorial_loop i n result =
     (if i \<le> n then factorial_loop (int_incr i) n (result * real_of_int i)
      else Some result)"

definition factorial :: "int \<Rightarrow> real option" where
  "factorial n = (if n \<le> 1 then Some 1 else factorial_loop 2 n 1)"

text \<open>
  \<^verbatim>\<open>calc_factorial\<close> (both ComplexUtils.h files, the same text) has no early return and
  an \<^verbatim>\<open>int\<close> accumulator, whose product wraps.
\<close>

partial_function (option) calc_factorial_loop :: "int \<Rightarrow> int \<Rightarrow> int \<Rightarrow> int option" where
  "calc_factorial_loop i n result =
     (if i \<le> n then calc_factorial_loop (int_incr i) n (int_wrap (result * i))
      else Some result)"

definition calc_factorial :: "int \<Rightarrow> int option" where
  "calc_factorial n = calc_factorial_loop 2 n 1"

subsection \<open>hermite\<close>

text \<open>
  \<^verbatim>\<open>for (int i = 1; i < n; i++) { h2 = 2.0 * x * h1 - 2.0 * i * h0; h0 = h1; h1 = h2; }\<close>
  Inside the loop \<open>i < n\<close>, so \<open>i + 1\<close> is at most \<open>n\<close> and the increment cannot
  wrap (lemma \<open>int_incr_below\<close>). The loop variables are \<open>i\<close>, \<open>h0\<close> and \<open>h1\<close>;
  \<open>h2\<close> is a temporary.
\<close>

function hermite_loop :: "int \<Rightarrow> int \<Rightarrow> real \<Rightarrow> real \<Rightarrow> real \<Rightarrow> real" where
  "hermite_loop i n x h0 h1 =
     (if i < n then hermite_loop (i + 1) n x h1 (2 * x * h1 - 2 * real_of_int i * h0)
      else h1)"
  by pat_completeness auto
termination
  by (relation "measure (\<lambda>(i, n, x, h0, h1). nat (n - i))") auto

declare hermite_loop.simps [simp del]

definition hermite :: "int \<Rightarrow> real \<Rightarrow> real" where
  "hermite n x =
     (if n = 0 then 1
      else if n = 1 then 2 * x
      else hermite_loop 1 n x 1 (2 * x))"

subsection \<open>assoc\_laguerre\<close>

function assoc_laguerre_loop :: "int \<Rightarrow> int \<Rightarrow> int \<Rightarrow> real \<Rightarrow> real \<Rightarrow> real \<Rightarrow> real" where
  "assoc_laguerre_loop i n alpha x l0 l1 =
     (if i < n then
        (let k = real_of_int i;
             a = real_of_int alpha;
             l2 = ((2 * k + 1 + a - x) * l1 - (k + a) * l0) / (k + 1)
         in assoc_laguerre_loop (i + 1) n alpha x l1 l2)
      else l1)"
  by pat_completeness auto
termination
  by (relation "measure (\<lambda>(i, n, alpha, x, l0, l1). nat (n - i))") auto

declare assoc_laguerre_loop.simps [simp del]

definition assoc_laguerre :: "int \<Rightarrow> int \<Rightarrow> real \<Rightarrow> real" where
  "assoc_laguerre n alpha x =
     (if n = 0 then 1
      else if n = 1 then 1 + real_of_int alpha - x
      else assoc_laguerre_loop 1 n alpha x 1 (1 + real_of_int alpha - x))"

section \<open>Wave functions (QuantumWaveFunctions.h)\<close>

text \<open>
  \<open>free_particle\<close> in binary32, operation by operation in the order of the source:
  \<^verbatim>\<open>a * b * c\<close> is \<open>(a * b) * c\<close>, \<^verbatim>\<open>-dx * dx\<close> is \<open>(-dx) * dx\<close>. (A host compiler
  would carry out in \<^verbatim>\<open>double\<close> the operations that involve an unsuffixed literal. The
  quotients \<^verbatim>\<open>hbar * t / (mass * sigma * sigma)\<close> and \<^verbatim>\<open>hbar * k0 * t / mass\<close> involve none.)
\<close>

definition free_particle ::
    "binary32 \<Rightarrow> binary32 \<Rightarrow> binary32 \<Rightarrow> binary32 \<Rightarrow> binary32 \<Rightarrow> binary32 \<Rightarrow> ComplexType32" where
  "free_particle x k0 sigma t mass hbar =
     (let omega = div32 (mul32 (mul32 hbar k0) k0) (mul32 (Fin 2) mass);
          sigma_t = mul32 sigma (sqrt32 (add32 (Fin 1)
                      (pow32 (div32 (mul32 hbar t) (mul32 (mul32 mass sigma) sigma)) (Fin 2))));
          x0 = Fin 0;
          dx = sub32 (sub32 x x0) (div32 (mul32 (mul32 hbar k0) t) mass);
          amplitude = div32 (exp32 (div32 (mul32 (neg32 dx) dx)
                                          (mul32 (mul32 (Fin 2) sigma_t) sigma_t)))
                            (pow32 (mul32 (mul32 (mul32 (Fin 2) M_PI_F32) sigma_t) sigma_t)
                                   (Fin 0.25));
          phase1 = mul32 k0 dx;
          phase2 = atan2_32 (mul32 hbar t) (mul32 (mul32 (mul32 (Fin 2) mass) sigma) sigma);
          phase = sub32 phase1 (mul32 (Fin 0.5) phase2)
      in \<lparr>real32 = mul32 amplitude (cos32 phase), imag32 = mul32 amplitude (sin32 phase)\<rparr>)"

definition infinite_well :: "real \<Rightarrow> real \<Rightarrow> int \<Rightarrow> real \<Rightarrow> real \<Rightarrow> real \<Rightarrow> ComplexType" where
  "infinite_well x L n t mass hbar =
     (if x < 0 \<or> x > L then \<lparr>real_c = 0, imag_c = 0\<rparr>
      else
        (let amplitude = sqrt (2 / L) * sin (real_of_int n * M_PI_F * x / L);
             energy = pow (real_of_int n * M_PI_F * hbar) 2 / (2 * mass * L * L);
             phase = - energy * t / hbar
         in \<lparr>real_c = amplitude * cos phase, imag_c = amplitude * sin phase\<rparr>))"

text \<open>
  \<^verbatim>\<open>harmonic_oscillator\<close> calls \<^verbatim>\<open>factorial(n)\<close>, so it returns only if that call does.
\<close>

definition harmonic_oscillator ::
    "real \<Rightarrow> int \<Rightarrow> real \<Rightarrow> real \<Rightarrow> real \<Rightarrow> real \<Rightarrow> ComplexType option" where
  "harmonic_oscillator x n omega t mass hbar =
     (let alpha = sqrt (mass * omega / hbar);
          xScaled = alpha * x;
          herm = hermite n xScaled
      in case factorial n of
           None \<Rightarrow> None
         | Some nfact \<Rightarrow>
            (let norm = 1 / sqrt (pow 2 (real_of_int n) * nfact * sqrt M_PI_F) * pow alpha 0.25;
                 amplitude = norm * herm * exp (- xScaled * xScaled / 2);
                 energy = hbar * omega * (real_of_int n + 0.5);
                 phase = - energy * t / hbar
             in Some \<lparr>real_c = amplitude * cos phase, imag_c = amplitude * sin phase\<rparr>))"

text \<open>
  \<^verbatim>\<open>hydrogen_atom\<close> computes \<^verbatim>\<open>n - l - 1\<close>, \<^verbatim>\<open>2 * l + 1\<close>, \<^verbatim>\<open>n + l\<close> and \<^verbatim>\<open>n * n\<close> in
  \<^verbatim>\<open>int\<close>, and calls \<^verbatim>\<open>factorial\<close> twice.
\<close>

definition hydrogen_atom :: "real \<Rightarrow> int \<Rightarrow> int \<Rightarrow> real \<Rightarrow> real \<Rightarrow> ComplexType option" where
  "hydrogen_atom r n l t hbar =
     (let bohrRadius = 5.29177210903 / 10 ^ 11;
          rydbergEnergy = 2.1798723611035 / 10 ^ 18;
          rho = 2 * r / (real_of_int n * bohrRadius);
          laguerrePoly =
            assoc_laguerre (int_wrap (int_wrap (n - l) - 1)) (int_wrap (int_wrap (2 * l) + 1)) rho
      in case factorial (int_wrap (int_wrap (n - l) - 1)) of
           None \<Rightarrow> None
         | Some f1 \<Rightarrow>
            (case factorial (int_wrap (n + l)) of
               None \<Rightarrow> None
             | Some f2 \<Rightarrow>
                (let norm = sqrt (pow (2 / (real_of_int n * bohrRadius)) 3 * f1
                                  / (2 * real_of_int n * f2));
                     radial = norm * exp (- rho / 2) * pow rho (real_of_int l) * laguerrePoly;
                     energy = - rydbergEnergy / real_of_int (int_wrap (n * n));
                     phase = - energy * t / hbar
                 in Some \<lparr>real_c = radial * cos phase, imag_c = radial * sin phase\<rparr>)))"

text \<open>
  \<^verbatim>\<open>calculateHarmonicOscillatorState(device float2* psi, const device float* position, int n, int size)\<close>
  The two device buffers are stores from index to value; \<^verbatim>\<open>psi[i] = ...\<close> updates the
  store at \<open>i\<close>. An element of \<open>psi\<close> is a \<^verbatim>\<open>float2\<close>, written here as the
  \<open>ComplexType\<close> it is assigned. (\<open>sz\<close> is the parameter \<^verbatim>\<open>size\<close>.) Inside the loop
  \<open>i < sz\<close>, so the increment cannot wrap.
\<close>

function calculateHarmonicOscillatorState_loop ::
    "int \<Rightarrow> real \<Rightarrow> (int \<Rightarrow> ComplexType) \<Rightarrow> (int \<Rightarrow> real) \<Rightarrow> int \<Rightarrow> int
      \<Rightarrow> (int \<Rightarrow> ComplexType) option" where
  "calculateHarmonicOscillatorState_loop i omega psi position n sz =
     (if i < sz then
        (let x = position i
         in case harmonic_oscillator x n omega 0 1 1 of
              None \<Rightarrow> None
            | Some v \<Rightarrow>
                calculateHarmonicOscillatorState_loop (i + 1) omega (psi(i := v)) position n sz)
      else Some psi)"
  by pat_completeness auto
termination
  by (relation "measure (\<lambda>(i, omega, psi, position, n, sz). nat (sz - i))") auto

declare calculateHarmonicOscillatorState_loop.simps [simp del]

definition calculateHarmonicOscillatorState ::
    "(int \<Rightarrow> ComplexType) \<Rightarrow> (int \<Rightarrow> real) \<Rightarrow> int \<Rightarrow> int \<Rightarrow> (int \<Rightarrow> ComplexType) option" where
  "calculateHarmonicOscillatorState psi position n sz =
     (let alpha = 1 :: real;
          omega = 1
      in calculateHarmonicOscillatorState_loop 0 omega psi position n sz)"

section \<open>The recurrences as the specification words them\<close>

text \<open>
  The specification's Hermite recurrence: \<open>H\<^sub>0 = 1\<close>, \<open>H\<^sub>1 = 2x\<close> and
  \<open>H\<^bsub>k+1\<^esub> = 2x H\<^sub>k - 2k H\<^bsub>k-1\<^esub>\<close>. It is used to reason about the loop of
  \<open>hermite\<close>, which is defined from the source above.
\<close>

fun hermite_recurrence :: "nat \<Rightarrow> real \<Rightarrow> real" where
  "hermite_recurrence 0 x = 1"
| "hermite_recurrence (Suc 0) x = 2 * x"
| "hermite_recurrence (Suc (Suc k)) x =
     2 * x * hermite_recurrence (Suc k) x - 2 * real (Suc k) * hermite_recurrence k x"

text \<open>
  The specification's associated Laguerre recurrence: \<open>L\<^sub>0 = 1\<close>, \<open>L\<^sub>1 = 1 + \<alpha> - x\<close> and
  \<open>L\<^bsub>k+1\<^esub> = ((2k + 1 + \<alpha> - x) L\<^sub>k - (k + \<alpha>) L\<^bsub>k-1\<^esub>) / (k + 1)\<close>.
\<close>

fun laguerre_recurrence :: "nat \<Rightarrow> real \<Rightarrow> real \<Rightarrow> real" where
  "laguerre_recurrence 0 a x = 1"
| "laguerre_recurrence (Suc 0) a x = 1 + a - x"
| "laguerre_recurrence (Suc (Suc k)) a x =
     ((2 * real (Suc k) + 1 + a - x) * laguerre_recurrence (Suc k) a x
        - (real (Suc k) + a) * laguerre_recurrence k a x) / (real (Suc k) + 1)"


section \<open>Machine integers and library functions: basic facts\<close>

lemma int_wrap_le_max: "int_wrap k \<le> INT_MAX"
proof -
  have "(k + 2147483648) mod 4294967296 < 4294967296"
    by (rule pos_mod_bound) simp
  then show ?thesis
    by (simp add: int_wrap_def INT_MAX_def)
qed

lemma int_incr_below: "i < n \<Longrightarrow> is_int n \<Longrightarrow> is_int i \<Longrightarrow> int_incr i = i + 1"
  by (simp add: int_incr_def int_wrap_def is_int_def INT_MAX_def INT_MIN_def)

lemma pow_quarter: "pow x (1 / 4) = x powr (1 / 4)"
  by (simp add: pow_def)

lemma pow_int: "0 \<le> n \<Longrightarrow> pow x (real_of_int n) = x ^ nat n"
  by (simp add: pow_def power_int_def)

section \<open>Binary32 arithmetic: basic facts\<close>

subsection \<open>Rounding\<close>

lemma round_even_of_int [simp]: "round_even (real_of_int k) = k"
  by (simp add: round_even_def)




lemma ulp_pos [simp]: "0 < ulp r"
  by (simp add: ulp_def)

lemma round32_zero [simp]: "round32 0 = Fin 0"
  using round_even_of_int [of 0] by (simp add: round32_def Let_def)

lemma round32_not_NaN [simp]: "round32 r \<noteq> NaN"
  by (simp add: round32_def Let_def)

lemma expo_normal:
  assumes "2 powr real_of_int e \<le> \<bar>r\<bar>" and "\<bar>r\<bar> < 2 powr real_of_int (e + 1)" and "- 126 \<le> e"
  shows "expo r = e"
proof -
  have "2 powr (- 126) \<le> 2 powr real_of_int e" using assms(3) by simp
  then have n: "\<not> \<bar>r\<bar> < 2 powr (- 126)" using assms(1) by linarith
  have "0 < \<bar>r\<bar>" using assms(1) by (smt (verit) powr_gt_zero)
  then have "\<lfloor>log 2 \<bar>r\<bar>\<rfloor> = e"
    using assms by (subst floor_log_eq_powr_iff) (simp_all add: add.commute)
  then show ?thesis using n by (simp add: expo_def)
qed



lemma ulp_scale:
  "2 powr real_of_int (expo r) = ulp r * 2 ^ 23"
  "2 powr (real_of_int (expo r) + 1) = ulp r * 2 ^ 24"
proof -
  have "2 powr real_of_int (expo r) = 2 powr (real_of_int (expo r - 23) + 23)" by simp
  also have "\<dots> = ulp r * 2 powr 23" by (simp only: powr_add ulp_def)
  finally show "2 powr real_of_int (expo r) = ulp r * 2 ^ 23" by simp
  have "2 powr (real_of_int (expo r) + 1) = 2 powr (real_of_int (expo r - 23) + 24)"
    by (simp add: add.commute)
  also have "\<dots> = ulp r * 2 powr 24" by (simp only: powr_add ulp_def)
  finally show "2 powr (real_of_int (expo r) + 1) = ulp r * 2 ^ 24" by simp
qed

lemma round32_grid:
  assumes "q = ulp q * real_of_int m" and "\<bar>q\<bar> < 2 ^ 128"
  shows "round32 q = Fin q"
proof -
  have "q / ulp q = real_of_int m"
    using assms(1) ulp_pos [of q] by (metis less_irrefl nonzero_mult_div_cancel_left)
  then show ?thesis
    using assms by (simp add: round32_def Let_def)
qed





text \<open>Values on the grid: powers of two, subnormals; and values that round to zero.\<close>

lemma round32_pow2:
  assumes "- 126 \<le> e" and "e \<le> 127"
  shows "round32 (2 powr real_of_int e) = Fin (2 powr real_of_int e)"
proof -
  let ?r = "2 powr real_of_int e"
  have "(2::real) powr real_of_int e < 2 powr real_of_int (e + 1)" by simp
  then have ex: "expo ?r = e"
    using assms(1) by (intro expo_normal) simp_all
  have "?r = ulp ?r * 2 ^ 23" using ulp_scale(1) [of ?r] by (simp add: ex)
  then have g: "?r = ulp ?r * real_of_int (2 ^ 23)" by simp
  have "?r \<le> 2 powr 127" using assms(2) by (intro powr_mono) simp_all
  also have "(2::real) powr 127 < 2 ^ 128" by simp
  finally have "\<bar>?r\<bar> < 2 ^ 128" by simp
  with g show ?thesis by (rule round32_grid)
qed



lemma round32_one [simp]: "round32 1 = Fin 1"
  using round32_pow2 [of 0] by simp



subsection \<open>Operations\<close>

lemma mul32_NaN_right [simp]: "mul32 a NaN = NaN"
  by (cases a) simp_all

lemma div32_NaN_right [simp]: "div32 a NaN = NaN"
  by (cases a) simp_all

lemma add32_NaN_right [simp]: "add32 a NaN = NaN"
  by (cases a) simp_all

lemma sub32_NaN [simp]: "sub32 NaN b = NaN" "sub32 a NaN = NaN"
  by (simp_all add: sub32_def)










section \<open>Complex arithmetic: properties\<close>

text \<open>
  Claim C7. For every complex value \<open>z\<close>, multiplying by \<open>i\<close> twice is scaling by \<open>-1\<close>:
  \<open>complex_mul_i (complex_mul_i z)\<close> and \<open>complex_scale z (-1)\<close> have the same real
  and the same imaginary component.
\<close>

theorem complex_mul_i_twice:
  "real_c (complex_mul_i (complex_mul_i z)) = real_c (complex_scale z (- 1)) \<and>
   imag_c (complex_mul_i (complex_mul_i z)) = imag_c (complex_scale z (- 1))"
  by (simp add: complex_mul_i_def complex_scale_def)

section \<open>factorial and calc\_factorial\<close>

text \<open>
  With \<open>n = INT_MAX\<close> the test \<open>i \<le> n\<close> holds for every \<^verbatim>\<open>int\<close> \<open>i\<close>: if the loop
  returned, it would have been entered with a counter above \<open>INT_MAX\<close>.
\<close>

lemma factorial_loop_exit:
  assumes "factorial_loop i n result = Some y"
  shows "n = INT_MAX \<longrightarrow> INT_MAX < i"
proof (rule factorial_loop.raw_induct
    [where P = "\<lambda>i n result y. n = INT_MAX \<longrightarrow> INT_MAX < i", OF _ assms])
  fix loop :: "int \<Rightarrow> int \<Rightarrow> real \<Rightarrow> real option" and i n :: int and result y :: real
  assume IH: "\<And>i n result y. loop i n result = Some y \<Longrightarrow> n = INT_MAX \<longrightarrow> INT_MAX < i"
    and step: "(if i \<le> n then loop (int_incr i) n (result * real_of_int i) else Some result) = Some y"
  show "n = INT_MAX \<longrightarrow> INT_MAX < i"
  proof (intro impI, rule ccontr)
    assume n: "n = INT_MAX" and "\<not> INT_MAX < i"
    then have "i \<le> n" by simp
    with step have "loop (int_incr i) n (result * real_of_int i) = Some y"
      by simp
    then have "INT_MAX < int_incr i"
      using IH n by blast
    then show False
      using int_wrap_le_max [of "i + 1"] by (simp add: int_incr_def)
  qed
qed

lemma factorial_loop_never_exits:
  "i \<le> INT_MAX \<Longrightarrow> factorial_loop i INT_MAX result = None"
  using factorial_loop_exit [of i INT_MAX result]
  by (cases "factorial_loop i INT_MAX result") auto

text \<open>Below \<open>INT_MAX\<close> the loop returns the running product.\<close>

lemma factorial_loop_returns:
  "n < INT_MAX \<Longrightarrow> INT_MIN \<le> i \<Longrightarrow> i \<le> n + 1 \<Longrightarrow>
   factorial_loop i n result = Some (result * (\<Prod>k = i..n. real_of_int k))"
proof (induction "nat (n + 1 - i)" arbitrary: i result)
  case 0
  then have "i = n + 1" by simp
  then show ?case by (subst factorial_loop.simps) simp
next
  case (Suc m)
  then have le: "i \<le> n" by linarith
  with Suc.prems have incr: "int_incr i = i + 1"
    by (simp add: int_incr_def int_wrap_def INT_MAX_def INT_MIN_def)
  have "m = nat (n + 1 - (i + 1))" using Suc.hyps(2) by linarith
  then have "factorial_loop (i + 1) n (result * real_of_int i) =
             Some (result * real_of_int i * (\<Prod>k = i + 1..n. real_of_int k))"
    using Suc.prems le by (intro Suc.hyps(1)) simp_all
  moreover have "{i..n} = insert i {i + 1..n}" using le by auto
  then have "(\<Prod>k = i..n. real_of_int k) = real_of_int i * (\<Prod>k = i + 1..n. real_of_int k)"
    by simp
  ultimately show ?case
    using le incr by (subst factorial_loop.simps) (simp add: mult.assoc)
qed

lemma prod_int_fact: "0 \<le> n \<Longrightarrow> (\<Prod>k = 2..n. real_of_int k) = fact (nat n)"
proof (induction "nat n" arbitrary: n)
  case 0
  then show ?case by simp
next
  case (Suc m)
  then have n: "0 \<le> n - 1" "m = nat (n - 1)" by linarith+
  show ?case
  proof (cases "n = 1")
    case True
    then show ?thesis by simp
  next
    case False
    with n Suc.prems have "2 \<le> n" by linarith
    then have "{2..n} = insert n {2..n - 1}" by auto
    then have "(\<Prod>k = 2..n. real_of_int k) = real_of_int n * (\<Prod>k = 2..n - 1. real_of_int k)"
      by simp
    also have "\<dots> = real_of_int n * fact (nat (n - 1))"
      using Suc.hyps(1) [OF n(2) n(1)] by simp
    also have "\<dots> = fact (nat n)"
    proof -
      have "nat n = Suc (nat (n - 1))" using \<open>2 \<le> n\<close> by linarith
      moreover have "real_of_int n = real (Suc (nat (n - 1)))" using \<open>2 \<le> n\<close> by simp
      ultimately show ?thesis by (simp only: fact_Suc of_nat_mult)
    qed
    finally show ?thesis .
  qed
qed

text \<open>
  For \<open>0 \<le> n < INT_MAX\<close> the function returns \<open>n!\<close>; it returns for every \<open>n\<close> below
  \<open>INT_MAX\<close>.
\<close>

lemma factorial_nonneg:
  assumes "0 \<le> n" and "n < INT_MAX"
  shows "factorial n = Some (fact (nat n))"
proof (cases "n \<le> 1")
  case True
  with assms(1) have "n = 0 \<or> n = 1" by linarith
  then show ?thesis by (auto simp: factorial_def)
next
  case False
  then show ?thesis
    using assms factorial_loop_returns [of n 2 1] prod_int_fact [of n]
    by (simp add: factorial_def INT_MIN_def)
qed

lemma factorial_returns:
  assumes "n < INT_MAX"
  shows "\<exists>r. factorial n = Some r"
proof (cases "0 \<le> n")
  case True
  then show ?thesis using assms by (simp add: factorial_nonneg)
next
  case False
  then show ?thesis by (simp add: factorial_def)
qed

lemma factorial_INT_MAX: "factorial INT_MAX = None"
  using factorial_loop_never_exits [of 2 1] by (simp add: factorial_def INT_MAX_def)

text \<open>
  Claim C8 says that \<open>factorial n\<close>, \<open>hermite n x\<close> and \<open>assoc_laguerre n alpha x\<close>
  terminate for every \<^verbatim>\<open>int\<close> \<open>n\<close> after at most \<open>max (n - 1) 0\<close> iterations. The loops
  of \<open>hermite\<close> and \<open>assoc_laguerre\<close> do: their termination measure \<open>nat (n - i)\<close> is
  \<open>max (n - 1) 0\<close> at entry and falls by one in each iteration. The loop of \<open>factorial\<close>
  does for \<open>n < INT_MAX\<close> (\<open>factorial_returns\<close>). The call \<open>factorial INT_MAX\<close> does not
  return: its loop test \<open>i \<le> INT_MAX\<close> is never false.
\<close>

theorem factorial_INT_MAX_never_returns: "factorial 2147483647 = None"
  using factorial_INT_MAX by (simp add: INT_MAX_def)

text \<open>
  Claim C9. For every negative \<open>n\<close>, \<open>factorial n\<close> returns exactly \<open>1\<close> (the branch
  \<open>n \<le> 1\<close>) and \<open>calc_factorial n\<close> returns exactly \<open>1\<close> (its loop body never runs).
\<close>

theorem factorial_negative:
  "n < 0 \<Longrightarrow> factorial n = Some 1 \<and> calc_factorial n = Some 1"
  by (simp add: factorial_def calc_factorial_def calc_factorial_loop.simps)

theorem factorial_negative_witness:
  "(- 3 :: int) < 0 \<and> factorial (- 3) = Some 1 \<and> calc_factorial (- 3) = Some 1"
  using factorial_negative [of "- 3"] by simp

section \<open>hermite\<close>

text \<open>
  Loop invariant: entered with \<open>i = k + 1\<close>, \<open>h0 = H\<^sub>k\<close> and \<open>h1 = H\<^bsub>k+1\<^esub>\<close>, the loop
  returns \<open>H\<^sub>n\<close> (or \<open>h1\<close> unchanged when \<open>n \<le> k + 1\<close>).
\<close>

lemma hermite_loop_recurrence:
  "hermite_loop (int (Suc k)) n x (hermite_recurrence k x) (hermite_recurrence (Suc k) x) =
     hermite_recurrence (max (Suc k) (nat n)) x"
proof (induction "nat n - Suc k" arbitrary: k)
  case 0
  then have "\<not> int (Suc k) < n" "max (Suc k) (nat n) = Suc k" by linarith+
  then show ?case by (subst hermite_loop.simps) simp
next
  case (Suc m)
  then have lt: "int (Suc k) < n" and m: "m = nat n - Suc (Suc k)"
    and mx: "max (Suc k) (nat n) = max (Suc (Suc k)) (nat n)" by linarith+
  have "hermite_loop (int (Suc k)) n x (hermite_recurrence k x) (hermite_recurrence (Suc k) x) =
        hermite_loop (int (Suc (Suc k))) n x (hermite_recurrence (Suc k) x)
          (hermite_recurrence (Suc (Suc k)) x)"
    using lt by (subst hermite_loop.simps) (simp add: add.commute)
  also have "\<dots> = hermite_recurrence (max (Suc (Suc k)) (nat n)) x"
    by (rule Suc.hyps(1) [OF m])
  finally show ?case by (simp only: mx)
qed

lemma hermite_eq_recurrence:
  assumes "0 \<le> n"
  shows "hermite n x = hermite_recurrence (nat n) x"
proof -
  consider "n = 0" | "n = 1" | "2 \<le> n" using assms by linarith
  then show ?thesis
  proof cases
    case 3
    then have "max (Suc 0) (nat n) = nat n" by linarith
    with 3 show ?thesis
      using hermite_loop_recurrence [of 0 n x] by (simp add: hermite_def)
  qed (simp_all add: hermite_def)
qed

text \<open>
  Claim C3. \<open>hermite 0 x = 1\<close> and \<open>hermite 1 x = 2x\<close> for every \<open>x\<close>, and for every
  \<open>n \<ge> 1\<close> and every \<open>x\<close> the computed values satisfy the three-term recurrence
  \<open>hermite (n + 1) x = 2x * hermite n x - 2n * hermite (n - 1) x\<close>.
\<close>

theorem hermite_three_term:
  "hermite 0 x = 1 \<and> hermite 1 x = 2 * x \<and>
   (1 \<le> n \<longrightarrow>
      hermite (n + 1) x = 2 * x * hermite n x - 2 * real_of_int n * hermite (n - 1) x)"
proof (intro conjI impI)
  assume n: "1 \<le> n"
  define k where "k = nat (n - 1)"
  have k: "nat (n + 1) = Suc (Suc k)" "nat n = Suc k" "nat (n - 1) = k"
    using n by (simp_all add: k_def)
  have "real_of_int n = real (Suc k)" using k(2) n by linarith
  then show "hermite (n + 1) x = 2 * x * hermite n x - 2 * real_of_int n * hermite (n - 1) x"
    using n k by (simp add: hermite_eq_recurrence)
qed (simp_all add: hermite_def)

theorem hermite_three_term_witness:
  "(1::int) \<le> 2 \<and> hermite (2 + 1) 3 = 2 * 3 * hermite 2 3 - 2 * real_of_int 2 * hermite (2 - 1) 3
   \<and> hermite 2 3 = 34 \<and> hermite (2 + 1) 3 = 180"
  using hermite_three_term [of 3 2] by (simp add: hermite_def hermite_loop.simps)

section \<open>assoc\_laguerre\<close>

lemma assoc_laguerre_loop_recurrence:
  "assoc_laguerre_loop (int (Suc k)) n alpha x
     (laguerre_recurrence k (real_of_int alpha) x)
     (laguerre_recurrence (Suc k) (real_of_int alpha) x) =
   laguerre_recurrence (max (Suc k) (nat n)) (real_of_int alpha) x"
proof (induction "nat n - Suc k" arbitrary: k)
  case 0
  then have "\<not> int (Suc k) < n" "max (Suc k) (nat n) = Suc k" by linarith+
  then show ?case by (subst assoc_laguerre_loop.simps) simp
next
  case (Suc m)
  then have lt: "int (Suc k) < n" and m: "m = nat n - Suc (Suc k)"
    and mx: "max (Suc k) (nat n) = max (Suc (Suc k)) (nat n)" by linarith+
  have "assoc_laguerre_loop (int (Suc k)) n alpha x
          (laguerre_recurrence k (real_of_int alpha) x)
          (laguerre_recurrence (Suc k) (real_of_int alpha) x) =
        assoc_laguerre_loop (int (Suc (Suc k))) n alpha x
          (laguerre_recurrence (Suc k) (real_of_int alpha) x)
          (laguerre_recurrence (Suc (Suc k)) (real_of_int alpha) x)"
    using lt by (subst assoc_laguerre_loop.simps) (simp add: add.commute Let_def)
  also have "\<dots> = laguerre_recurrence (max (Suc (Suc k)) (nat n)) (real_of_int alpha) x"
    by (rule Suc.hyps(1) [OF m])
  finally show ?case by (simp only: mx)
qed

lemma assoc_laguerre_eq_recurrence:
  assumes "0 \<le> n"
  shows "assoc_laguerre n alpha x = laguerre_recurrence (nat n) (real_of_int alpha) x"
proof -
  consider "n = 0" | "n = 1" | "2 \<le> n" using assms by linarith
  then show ?thesis
  proof cases
    case 3
    then have "max (Suc 0) (nat n) = nat n" by linarith
    with 3 show ?thesis
      using assoc_laguerre_loop_recurrence [of 0 n alpha x] by (simp add: assoc_laguerre_def)
  qed (simp_all add: assoc_laguerre_def)
qed

text \<open>The same fact as a step from two consecutive values to the next.\<close>

lemma assoc_laguerre_step:
  assumes "1 \<le> n"
  shows "assoc_laguerre (n + 1) alpha x =
     ((2 * real_of_int n + 1 + real_of_int alpha - x) * assoc_laguerre n alpha x
        - (real_of_int n + real_of_int alpha) * assoc_laguerre (n - 1) alpha x)
     / (real_of_int n + 1)"
proof -
  define k where "k = nat (n - 1)"
  have k: "nat (n + 1) = Suc (Suc k)" "nat n = Suc k" "nat (n - 1) = k"
    using assms by (simp_all add: k_def)
  have "real_of_int n = real (Suc k)" using k(2) assms by linarith
  then show ?thesis
    using assms k by (simp add: assoc_laguerre_eq_recurrence)
qed

text \<open>
  Claim C4. \<open>assoc_laguerre 0 alpha x = 1\<close> and \<open>assoc_laguerre 1 alpha x = 1 + alpha - x\<close>
  for every \<open>alpha\<close> and \<open>x\<close>, and for every \<open>n \<ge> 1\<close> the returned value is the one the
  three-term recurrence \<open>laguerre_recurrence\<close> produces from those seeds.
\<close>

theorem assoc_laguerre_three_term:
  "assoc_laguerre 0 alpha x = 1 \<and>
   assoc_laguerre 1 alpha x = 1 + real_of_int alpha - x \<and>
   (1 \<le> n \<longrightarrow> assoc_laguerre n alpha x = laguerre_recurrence (nat n) (real_of_int alpha) x)"
proof (intro conjI impI)
  assume "1 \<le> n"
  then show "assoc_laguerre n alpha x = laguerre_recurrence (nat n) (real_of_int alpha) x"
    by (simp add: assoc_laguerre_eq_recurrence)
qed (simp_all add: assoc_laguerre_def)

theorem assoc_laguerre_three_term_witness:
  "(1::int) \<le> 3 \<and> assoc_laguerre 3 2 5 = laguerre_recurrence 3 2 5 \<and> assoc_laguerre 3 2 5 = 5 / 3"
  using assoc_laguerre_three_term [of 2 5 3] by (simp add: numeral_3_eq_3)

section \<open>Negative degrees\<close>

text \<open>
  Claim C10. For every \<open>n < 0\<close> and every \<open>x\<close> and \<open>alpha\<close>, \<open>hermite n x\<close> returns exactly
  \<open>2x\<close> and \<open>assoc_laguerre n alpha x\<close> returns exactly \<open>1 + alpha - x\<close>: the loop runs
  zero times and the second seed is returned.
\<close>

theorem negative_degree_seed:
  "n < 0 \<Longrightarrow> hermite n x = 2 * x \<and> assoc_laguerre n alpha x = 1 + real_of_int alpha - x"
  by (simp add: hermite_def hermite_loop.simps assoc_laguerre_def assoc_laguerre_loop.simps)

theorem negative_degree_seed_witness:
  "(- 2 :: int) < 0 \<and> hermite (- 2) 7 = 14 \<and> assoc_laguerre (- 2) 3 7 = - 3"
  using negative_degree_seed [of "- 2" 7 3] by simp

text \<open>
  Such a call arises in \<open>hydrogen_atom\<close> when \<open>l \<ge> n\<close>: the degree \<open>n - l - 1\<close> is negative,
  the evaluator still returns, and its Laguerre factor is the second seed.
\<close>

lemma hydrogen_negative_degree:
  assumes "1 \<le> n" and "n \<le> l" and "l < 1073741824"
  shows "\<exists>c. hydrogen_atom r n l t hbar = Some c \<and>
     assoc_laguerre (int_wrap (int_wrap (n - l) - 1)) (int_wrap (int_wrap (2 * l) + 1)) rho
       = 1 + real_of_int (2 * l + 1) - rho"
proof -
  have w: "int_wrap (int_wrap (n - l) - 1) = n - l - 1" "int_wrap (int_wrap (2 * l) + 1) = 2 * l + 1"
    "int_wrap (n + l) = n + l"
    using assms by (simp_all add: int_wrap_def)
  have neg: "n - l - 1 < 0" using assms by simp
  have "factorial (n - l - 1) = Some 1" using neg by (simp add: factorial_def)
  moreover have "factorial (n + l) = Some (fact (nat (n + l)))"
    using assms by (intro factorial_nonneg) (simp_all add: INT_MAX_def)
  ultimately have "\<exists>c. hydrogen_atom r n l t hbar = Some c"
    by (simp add: hydrogen_atom_def w Let_def)
  moreover have "assoc_laguerre (n - l - 1) (2 * l + 1) rho = 1 + real_of_int (2 * l + 1) - rho"
    using neg by (simp add: assoc_laguerre_def assoc_laguerre_loop.simps)
  ultimately show ?thesis by (simp add: w)
qed

section \<open>Wave functions\<close>

subsection \<open>infinite\_well\<close>

text \<open>
  Claim C2. For every \<open>L > 0\<close>, every \<open>n\<close>, \<open>t\<close>, \<open>mass\<close>, \<open>hbar\<close> and every position \<open>x\<close>
  with \<open>x < 0\<close> or \<open>x > L\<close>, \<open>infinite_well\<close> returns exactly the complex value \<open>(0, 0)\<close>.
\<close>

theorem infinite_well_outside:
  "0 < L \<Longrightarrow> x < 0 \<or> L < x \<Longrightarrow>
   infinite_well x L n t mass hbar = \<lparr>real_c = 0, imag_c = 0\<rparr>"
  by (simp add: infinite_well_def)

theorem infinite_well_outside_witness:
  "(0::real) < 1 \<and> ((- 0.1 :: real) < 0 \<or> (1::real) < - 0.1) \<and>
   infinite_well (- 0.1) 1 1 0 1 1 = \<lparr>real_c = 0, imag_c = 0\<rparr> \<and>
   infinite_well 1.1 1 1 0 1 1 = \<lparr>real_c = 0, imag_c = 0\<rparr>"
  using infinite_well_outside [of 1 "- 0.1" 1 0 1 1] infinite_well_outside [of 1 "1.1" 1 0 1 1]
  by simp

subsection \<open>free\_particle\<close>


lemma free_particle_overflow_path:
  assumes "mul32 hbar k0 = PInf \<or> mul32 hbar k0 = NInf"
  shows "free_particle x k0 sigma (Fin 0) mass hbar = \<lparr>real32 = NaN, imag32 = NaN\<rparr>"
  using assms by (auto simp: free_particle_def Let_def)




subsection \<open>harmonic\_oscillator\<close>

lemma sqrt_powr_quarter:
  assumes "0 < q"
  shows "sqrt q powr (1 / 4) = q powr (1 / 8)"
proof -
  have "sqrt q = q powr (1 / 2)" using assms by (simp add: powr_half_sqrt)
  then have "sqrt q powr (1 / 4) = (q powr (1 / 2)) powr (1 / 4)" by simp
  also have "\<dots> = q powr (1 / 2 * (1 / 4))" by (rule powr_powr)
  finally show ?thesis by simp
qed

text \<open>
  What the evaluator computes for \<open>0 \<le> n < INT_MAX\<close> and positive parameters: the
  factor \<^verbatim>\<open>pow(alpha, 0.25)\<close> with \<open>alpha = sqrt (mass * omega / hbar)\<close> is
  \<open>(mass * omega / hbar) powr (1 / 8)\<close>.
\<close>

lemma harmonic_oscillator_value:
  assumes "0 \<le> n" and "n < INT_MAX" and "0 < omega" and "0 < mass" and "0 < hbar"
  shows "harmonic_oscillator x n omega t mass hbar =
    (let xi = x * sqrt (mass * omega / hbar);
         amplitude = hermite n xi * exp (- xi\<^sup>2 / 2) / sqrt (2 ^ nat n * fact (nat n) * sqrt pi)
                     * (mass * omega / hbar) powr (1 / 8);
         phase = - (hbar * omega * (real_of_int n + 1 / 2)) * t / hbar
     in Some \<lparr>real_c = amplitude * cos phase, imag_c = amplitude * sin phase\<rparr>)"
proof -
  have q: "0 < mass * omega / hbar" using assms by simp
  show ?thesis
    by (simp add: harmonic_oscillator_def M_PI_F_def Let_def factorial_nonneg assms pow_int pow_quarter
        sqrt_powr_quarter [OF q] power2_eq_square mult.commute)
qed

lemma sqrt_256: "sqrt 256 = 16"
  using real_sqrt_abs [of 16] by simp

lemma powr_16_quarter: "(16::real) powr (1 / 4) = 2"
proof -
  have "(16::real) = 2 powr 4" by simp
  then have "(16::real) powr (1 / 4) = (2 powr 4) powr (1 / 4)" by simp
  also have "\<dots> = 2 powr (4 * (1 / 4))" by (rule powr_powr)
  finally show ?thesis by simp
qed

lemma powr_256_quarter: "(256::real) powr (1 / 4) = 4"
proof -
  have "(256::real) = 4 powr 4" by simp
  then have "(256::real) powr (1 / 4) = (4 powr 4) powr (1 / 4)" by simp
  also have "\<dots> = 4 powr (4 * (1 / 4))" by (rule powr_powr)
  finally show ?thesis by simp
qed

text \<open>
  Claim C1 gives the amplitude as
  \<open>H\<^sub>n(xi) * exp (- xi\<^sup>2 / 2) / sqrt (2\<^sup>n * n! * sqrt pi) * (m * omega / hbar) powr (1/4)\<close>
  with \<open>xi = x * sqrt (m * omega / hbar)\<close>. At \<open>x = 0\<close>, \<open>n = 0\<close>, \<open>omega = 1\<close>, \<open>t = 0\<close>,
  \<open>mass = 256\<close>, \<open>hbar = 1\<close> the evaluator returns the amplitude \<open>2 / sqrt (sqrt pi)\<close>,
  the claimed formula gives \<open>4 / sqrt (sqrt pi)\<close>, and the two differ.
\<close>

theorem harmonic_oscillator_exponent:
  "harmonic_oscillator 0 0 1 0 256 1 = Some \<lparr>real_c = 2 / sqrt (sqrt pi), imag_c = 0\<rparr> \<and>
   hermite 0 (0 * sqrt (256 * 1 / 1)) * exp (- (0 * sqrt (256 * 1 / 1))\<^sup>2 / 2)
     / sqrt (2 ^ 0 * fact 0 * sqrt pi) * (256 * 1 / 1) powr (1 / 4) = 4 / sqrt (sqrt pi) \<and>
   2 / sqrt (sqrt pi) \<noteq> 4 / sqrt (sqrt pi)"
proof (intro conjI)
  have "factorial 0 = Some 1" by (simp add: factorial_def)
  then show "harmonic_oscillator 0 0 1 0 256 1 = Some \<lparr>real_c = 2 / sqrt (sqrt pi), imag_c = 0\<rparr>"
    by (simp add: harmonic_oscillator_def M_PI_F_def hermite_def Let_def pow_quarter sqrt_256
        powr_16_quarter pow_def)
  show "hermite 0 (0 * sqrt (256 * 1 / 1)) * exp (- (0 * sqrt (256 * 1 / 1))\<^sup>2 / 2)
     / sqrt (2 ^ 0 * fact 0 * sqrt pi) * (256 * 1 / 1) powr (1 / 4) = 4 / sqrt (sqrt pi)"
    by (simp add: hermite_def powr_256_quarter)
  show "2 / sqrt (sqrt pi) \<noteq> 4 / sqrt (sqrt pi)"
    by simp
qed

section \<open>calculateHarmonicOscillatorState\<close>

text \<open>
  Loop invariant: when every evaluator call returns, the loop entered at \<open>i\<close> returns the
  store that holds the evaluator's value at each index from \<open>i\<close> up to \<open>sz\<close> and is
  unchanged elsewhere.
\<close>

lemma calculateHarmonicOscillatorState_loop_result:
  assumes "\<And>x. harmonic_oscillator x n omega 0 1 1 \<noteq> None"
  shows "calculateHarmonicOscillatorState_loop i omega psi position n sz =
     Some (\<lambda>j. if i \<le> j \<and> j < sz then the (harmonic_oscillator (position j) n omega 0 1 1)
                else psi j)"
proof (induction "nat (sz - i)" arbitrary: i psi)
  case 0
  then have "\<not> i < sz" by simp
  then show ?case
    by (subst calculateHarmonicOscillatorState_loop.simps) auto
next
  case (Suc m)
  then have lt: "i < sz" and m: "m = nat (sz - (i + 1))" by linarith+
  obtain v where v: "harmonic_oscillator (position i) n omega 0 1 1 = Some v"
    using assms [of "position i"] by auto
  have "calculateHarmonicOscillatorState_loop i omega psi position n sz =
        calculateHarmonicOscillatorState_loop (i + 1) omega (psi(i := v)) position n sz"
    using lt v by (subst calculateHarmonicOscillatorState_loop.simps) simp
  also have "\<dots> = Some (\<lambda>j. if i + 1 \<le> j \<and> j < sz
                 then the (harmonic_oscillator (position j) n omega 0 1 1) else (psi(i := v)) j)"
    by (rule Suc.hyps(1) [OF m])
  also have "(\<lambda>j. if i + 1 \<le> j \<and> j < sz
                 then the (harmonic_oscillator (position j) n omega 0 1 1) else (psi(i := v)) j) =
             (\<lambda>j. if i \<le> j \<and> j < sz
                 then the (harmonic_oscillator (position j) n omega 0 1 1) else psi j)"
    using lt v by (auto simp: fun_eq_iff)
  finally show ?case .
qed

text \<open>
  For every \<open>n\<close> other than \<open>INT_MAX\<close> the driver returns, the sample at each index
  \<open>0 \<le> j < sz\<close> is the evaluator's value at \<open>position j\<close>, and no other element of
  \<open>psi\<close> is written.
\<close>

lemma calculateHarmonicOscillatorState_fills:
  assumes "is_int n" and "n \<noteq> INT_MAX"
  shows "\<exists>psi'. calculateHarmonicOscillatorState psi position n sz = Some psi' \<and>
     (\<forall>j. 0 \<le> j \<and> j < sz \<longrightarrow> harmonic_oscillator (position j) n 1 0 1 1 = Some (psi' j)) \<and>
     (\<forall>j. \<not> (0 \<le> j \<and> j < sz) \<longrightarrow> psi' j = psi j)"
proof -
  have "n < INT_MAX" using assms by (simp add: is_int_def)
  then have "\<exists>r. factorial n = Some r" by (rule factorial_returns)
  then have ret: "\<And>x. harmonic_oscillator x n 1 0 1 1 \<noteq> None"
    by (auto simp: harmonic_oscillator_def Let_def)
  show ?thesis
    using ret by (auto simp: calculateHarmonicOscillatorState_def Let_def
        calculateHarmonicOscillatorState_loop_result [OF ret])
qed

text \<open>
  Claim C6 says that for every \<open>sz \<ge> 0\<close>, every \<open>n\<close> and every position sequence the
  driver produces exactly \<open>sz\<close> samples, the one at index \<open>i\<close> being the evaluator's value
  at position \<open>i\<close>. With \<open>n = INT_MAX\<close> and one position the driver produces nothing:
  its first evaluator call reaches \<open>factorial INT_MAX\<close>.
\<close>

theorem calculateHarmonicOscillatorState_INT_MAX:
  "calculateHarmonicOscillatorState psi position 2147483647 1 = None"
proof -
  have "harmonic_oscillator (position 0) INT_MAX 1 0 1 1 = None"
    by (simp add: harmonic_oscillator_def factorial_INT_MAX)
  then show ?thesis
    by (simp add: calculateHarmonicOscillatorState_def Let_def INT_MAX_def
        calculateHarmonicOscillatorState_loop.simps [of 0])
qed

end
